theory Spec2Isabelle
  imports Main "HOL-Library.Sublist"
begin

section \<open>Go values as seen through package reflect\<close>

text \<open>
  The predicates of \<^verbatim>\<open>condition.go\<close> take their operand as an \<^verbatim>\<open>interface{}\<close> and
  classify it at render time with \<^verbatim>\<open>reflect\<close>. The enumeration below is
  \<^verbatim>\<open>reflect.Kind\<close>, constructor for constructor.
\<close>

datatype kind =
    Invalid | Bool
  | Int_kind | Int8 | Int16 | Int32 | Int64
  | Uint | Uint8 | Uint16 | Uint32 | Uint64 | Uintptr
  | Float32 | Float64 | Complex64 | Complex128
  | Array | Chan | Func | Interface | Map | Ptr | Slice | String | Struct | UnsafePointer

text \<open>
  The integer kinds and the kinds whose values the code never looks into, each with its
  \<^verbatim>\<open>reflect.Kind\<close>.
\<close>

datatype intkind =
    KInt | KInt8 | KInt16 | KInt32 | KInt64
  | KUint | KUint8 | KUint16 | KUint32 | KUint64 | KUintptr

datatype otherkind =
    KFloat32 | KFloat64 | KComplex64 | KComplex128
  | KArray | KChan | KFunc | KMap | KStruct | KUnsafePointer

fun kind_of_intkind :: "intkind \<Rightarrow> kind" where
  "kind_of_intkind KInt = Int_kind"
| "kind_of_intkind KInt8 = Int8"
| "kind_of_intkind KInt16 = Int16"
| "kind_of_intkind KInt32 = Int32"
| "kind_of_intkind KInt64 = Int64"
| "kind_of_intkind KUint = Uint"
| "kind_of_intkind KUint8 = Uint8"
| "kind_of_intkind KUint16 = Uint16"
| "kind_of_intkind KUint32 = Uint32"
| "kind_of_intkind KUint64 = Uint64"
| "kind_of_intkind KUintptr = Uintptr"

fun kind_of_otherkind :: "otherkind \<Rightarrow> kind" where
  "kind_of_otherkind KFloat32 = Float32"
| "kind_of_otherkind KFloat64 = Float64"
| "kind_of_otherkind KComplex64 = Complex64"
| "kind_of_otherkind KComplex128 = Complex128"
| "kind_of_otherkind KArray = Array"
| "kind_of_otherkind KChan = Chan"
| "kind_of_otherkind KFunc = Func"
| "kind_of_otherkind KMap = Map"
| "kind_of_otherkind KStruct = Struct"
| "kind_of_otherkind KUnsafePointer = UnsafePointer"

text \<open>
  A dynamic type is a predeclared or literal type (\<open>None\<close>) or a defined type
  \<^verbatim>\<open>type N T\<close> (\<open>Some N\<close>); a defined type has the kind of its underlying type. A
  slice type is described by its element type: the element's kind and name.
\<close>

type_synonym tname = "string option"

datatype elemtype = ElemType (elem_kind: kind) (elem_name: tname)

text \<open>
  An \<^verbatim>\<open>interface{}\<close> value. \<open>VNil\<close> is the nil interface, the only value for which the
  Go comparison \<^verbatim>\<open>value == nil\<close> holds. A pointer is nil (\<open>None\<close>) or points to a
  variable; \<open>Some x\<close> gives the content of that variable as \<^verbatim>\<open>v.Elem().Interface()\<close>
  returns it, so \<open>Some VNil\<close> is a pointer to an interface variable that holds nil.
  A nil slice is a slice without elements. Go strings are byte sequences, as \<open>string\<close> is.
  Values are finite trees: a pointer chain that leads back to itself is outside the model.
\<close>

datatype goval =
    VNil
  | VBool tname bool
  | VInt tname intkind int
  | VString tname string
  | VPtr tname "goval option"
  | VSlice tname elemtype "goval list"
  | VOther tname otherkind string

text \<open>
  A \<^verbatim>\<open>reflect.Value\<close>: the zero Value, or a Value holding a value. \<^verbatim>\<open>reflect.ValueOf(nil)\<close>
  is the zero Value; \<open>Holds VNil\<close> is the Value of an interface variable that holds nil,
  which only \<open>Elem\<close> of a pointer produces.
\<close>

datatype rvalue = ZeroValue | Holds goval

definition ValueOf :: "goval \<Rightarrow> rvalue" where
  "ValueOf i = (if i = VNil then ZeroValue else Holds i)"

fun Kind :: "rvalue \<Rightarrow> kind" where
  "Kind ZeroValue = Invalid"
| "Kind (Holds VNil) = Interface"
| "Kind (Holds (VBool _ _)) = Bool"
| "Kind (Holds (VInt _ k _)) = kind_of_intkind k"
| "Kind (Holds (VString _ _)) = String"
| "Kind (Holds (VPtr _ _)) = Ptr"
| "Kind (Holds (VSlice _ _ _)) = Slice"
| "Kind (Holds (VOther _ k _)) = kind_of_otherkind k"

text \<open>
  The methods of \<^verbatim>\<open>reflect.Value\<close> the code calls, with \<open>Type_Elem_Kind\<close> for
  \<^verbatim>\<open>v.Type().Elem().Kind()\<close>. A method panics outside its domain: \<open>Inl\<close> with the
  message of the panic. \<open>Len\<close> and \<open>Type_Elem_Kind\<close> are modelled on slices (and \<open>Len\<close>
  on strings), where the code calls them.
\<close>

fun Len :: "rvalue \<Rightarrow> string + nat" where
  "Len (Holds (VSlice _ _ xs)) = Inr (length xs)"
| "Len (Holds (VString _ s)) = Inr (length s)"
| "Len _ = Inl ''reflect: call of reflect.Value.Len on a Value of another kind''"

fun Type_Elem_Kind :: "rvalue \<Rightarrow> string + kind" where
  "Type_Elem_Kind (Holds (VSlice _ t _)) = Inr (elem_kind t)"
| "Type_Elem_Kind _ = Inl ''reflect: Elem of invalid type''"

fun Elem :: "rvalue \<Rightarrow> string + rvalue" where
  "Elem (Holds (VPtr _ None)) = Inr ZeroValue"
| "Elem (Holds (VPtr _ (Some x))) = Inr (Holds x)"
| "Elem (Holds VNil) = Inr ZeroValue"
| "Elem _ = Inl ''reflect: call of reflect.Value.Elem on a Value of another kind''"

fun Interface_of :: "rvalue \<Rightarrow> string + goval" where
  "Interface_of ZeroValue = Inl ''reflect: call of reflect.Value.Interface on zero Value''"
| "Interface_of (Holds x) = Inr x"

text \<open>
  The type assertion \<^verbatim>\<open>value.([]rune)\<close>: it holds when the dynamic type is exactly
  \<^verbatim>\<open>[]int32\<close> (\<^verbatim>\<open>rune\<close> is an alias of \<^verbatim>\<open>int32\<close>), and panics for every other
  dynamic type, a defined slice type or a slice of a defined element type included.
\<close>

fun int32_of :: "goval \<Rightarrow> int option" where
  "int32_of (VInt None KInt32 n) = Some n"
| "int32_of _ = None"

fun those_opt :: "'a option list \<Rightarrow> 'a list option" where
  "those_opt [] = Some []"
| "those_opt (None # _) = None"
| "those_opt (Some x # xs) = (case those_opt xs of None \<Rightarrow> None | Some ys \<Rightarrow> Some (x # ys))"

fun assert_runes :: "goval \<Rightarrow> string + int list" where
  "assert_runes (VSlice None (ElemType Int32 None) xs) =
     (case those_opt (map int32_of xs) of
        Some rs \<Rightarrow> Inr rs
      | None \<Rightarrow> Inl ''interface conversion: interface {} is not []int32'')"
| "assert_runes _ = Inl ''interface conversion: interface {} is not []int32''"

text \<open>
  The conversion \<^verbatim>\<open>string(rs)\<close> of a rune slice: the UTF-8 encoding of each code point,
  the encoding of U+FFFD for a value that is not a valid code point.
\<close>

definition encoderune :: "int \<Rightarrow> string" where
  "encoderune r =
     (if r < 0 \<or> 0x10FFFF < r \<or> (0xD800 \<le> r \<and> r \<le> 0xDFFF)
        then [char_of (0xEF :: int), char_of (0xBF :: int), char_of (0xBD :: int)]
      else if r < 0x80 then [char_of r]
      else if r < 0x800 then [char_of (0xC0 + r div 0x40), char_of (0x80 + r mod 0x40)]
      else if r < 0x10000
        then [char_of (0xE0 + r div 0x1000), char_of (0x80 + r div 0x40 mod 0x40),
              char_of (0x80 + r mod 0x40)]
      else [char_of (0xF0 + r div 0x40000), char_of (0x80 + r div 0x1000 mod 0x40),
            char_of (0x80 + r div 0x40 mod 0x40), char_of (0x80 + r mod 0x40)])"

definition string_of_runes :: "int list \<Rightarrow> string" where
  "string_of_runes rs = concat (map encoderune rs)"

section \<open>Dialect, Buffer and Builder\<close>

text \<open>
  Modelled from the spec: the interface \<^verbatim>\<open>Dialect\<close> is declared outside
  \<^verbatim>\<open>condition.go\<close>; the code calls its methods \<^verbatim>\<open>QuoteIdent\<close> and \<^verbatim>\<open>EncodeBool\<close>,
  which the spec describes as pure functions to text. An implementation is a parameter
  of every definition below.
\<close>

record dialect =
  QuoteIdent :: "string \<Rightarrow> string"
  EncodeBool :: "bool \<Rightarrow> string"

text \<open>
  Modelled from the spec: the interface \<^verbatim>\<open>Buffer\<close> is declared outside
  \<^verbatim>\<open>condition.go\<close>. The spec describes it as two parallel, growing sequences, the
  rendered text and the bound values; \<^verbatim>\<open>WriteString\<close> appends to the first and
  \<^verbatim>\<open>WriteValue\<close> to the second. The code ignores what both return.
\<close>

record buffer =
  buf_string :: string
  buf_value :: "goval list"

definition WriteString :: "string \<Rightarrow> buffer \<Rightarrow> buffer" where
  "WriteString s buf = buf\<lparr>buf_string := buf_string buf @ s\<rparr>"

definition WriteValue :: "goval \<Rightarrow> buffer \<Rightarrow> buffer" where
  "WriteValue v buf = buf\<lparr>buf_value := buf_value buf @ [v]\<rparr>"

definition empty_buffer :: buffer where
  "empty_buffer = \<lparr>buf_string = [], buf_value = []\<rparr>"

text \<open>
  Modelled from the spec: the constant \<^verbatim>\<open>placeholder\<close> is declared outside
  \<^verbatim>\<open>condition.go\<close>; the spec's examples render it as a question mark.
\<close>

definition placeholder :: string where
  "placeholder = ''?''"

text \<open>
  Modelled from the spec: the error \<^verbatim>\<open>ErrColumnNotSpecified\<close> is declared outside
  \<^verbatim>\<open>condition.go\<close>. A child Builder may return any other error.
\<close>

datatype error = ErrColumnNotSpecified | ErrOther string

text \<open>
  What a call of \<^verbatim>\<open>Build\<close> does: it returns an error value (\<open>None\<close> is Go's nil),
  or it panics. In both cases the Buffer keeps what was written before.
\<close>

datatype outcome = Return "error option" | Panic string

text \<open>
  A Builder is anything with a method \<^verbatim>\<open>Build(d Dialect, buf Buffer) error\<close>;
  \<^verbatim>\<open>BuildFunc\<close> makes one from a function. The Buffer is mutated in place in Go and
  passed through here.
\<close>

type_synonym builder = "dialect \<Rightarrow> buffer \<Rightarrow> outcome \<times> buffer"

section \<open>The code of condition.go\<close>

text \<open>
  The loop of \<^verbatim>\<open>buildCond\<close> over \<^verbatim>\<open>for i, c := range cond\<close>, from the index \<open>i\<close> on:
  the separator is written for every child but the first, an error of a child is
  returned at once, and a panic of a child unwinds through the loop.
\<close>

fun buildCond_from :: "nat \<Rightarrow> dialect \<Rightarrow> buffer \<Rightarrow> string \<Rightarrow> builder list \<Rightarrow> outcome \<times> buffer" where
  "buildCond_from i d buf pred [] = (Return None, buf)"
| "buildCond_from i d buf pred (c # cond) =
     (let buf = (if i > 0
                 then WriteString '' '' (WriteString pred (WriteString '' '' buf))
                 else buf);
          buf = WriteString ''('' buf
      in case c d buf of
           (Return None, buf) \<Rightarrow> buildCond_from (i + 1) d (WriteString '')'' buf) pred cond
         | (Return (Some err), buf) \<Rightarrow> (Return (Some err), buf)
         | (Panic p, buf) \<Rightarrow> (Panic p, buf))"

definition buildCond :: "dialect \<Rightarrow> buffer \<Rightarrow> string \<Rightarrow> builder list \<Rightarrow> outcome \<times> buffer" where
  "buildCond d buf pred cond = buildCond_from 0 d buf pred cond"

definition And :: "builder list \<Rightarrow> builder" where
  "And cond = (\<lambda>d buf. buildCond d buf ''AND'' cond)"

definition Or :: "builder list \<Rightarrow> builder" where
  "Or cond = (\<lambda>d buf. buildCond d buf ''OR'' cond)"

text \<open>
  \<^verbatim>\<open>buf.WriteValue(value)\<close> passes the one value: a slice is one bound value, it is not
  spread over the variadic parameter.
\<close>

definition buildCmp :: "dialect \<Rightarrow> buffer \<Rightarrow> string \<Rightarrow> string \<Rightarrow> goval \<Rightarrow> outcome \<times> buffer" where
  "buildCmp d buf pred column value =
     (let buf = WriteString (QuoteIdent d column) buf;
          buf = WriteString '' '' buf;
          buf = WriteString pred buf;
          buf = WriteString '' '' buf;
          buf = WriteString placeholder buf;
          buf = WriteValue value buf
      in (Return None, buf))"

definition Eq :: "string \<Rightarrow> goval \<Rightarrow> builder" where
  "Eq column value = (\<lambda>d buf.
     if value = VNil
     then (Return None, WriteString '' IS NULL'' (WriteString (QuoteIdent d column) buf))
     else let v = ValueOf value in
       if Kind v = Slice
       then (case Len v of
               Inl p \<Rightarrow> (Panic p, buf)
             | Inr n \<Rightarrow>
                 if n = 0 then (Return None, WriteString (EncodeBool d False) buf)
                 else buildCmp d buf ''IN'' column value)
       else buildCmp d buf ''='' column value)"

definition Neq :: "string \<Rightarrow> goval \<Rightarrow> builder" where
  "Neq column value = (\<lambda>d buf.
     if value = VNil
     then (Return None, WriteString '' IS NOT NULL'' (WriteString (QuoteIdent d column) buf))
     else let v = ValueOf value in
       if Kind v = Slice
       then (case Len v of
               Inl p \<Rightarrow> (Panic p, buf)
             | Inr n \<Rightarrow>
                 if n = 0 then (Return None, WriteString (EncodeBool d True) buf)
                 else buildCmp d buf ''NOT IN'' column value)
       else buildCmp d buf ''!='' column value)"

definition Gt :: "string \<Rightarrow> goval \<Rightarrow> builder" where
  "Gt column value = (\<lambda>d buf. buildCmp d buf ''>'' column value)"

definition Gte :: "string \<Rightarrow> goval \<Rightarrow> builder" where
  "Gte column value = (\<lambda>d buf. buildCmp d buf ''>='' column value)"

definition Lt :: "string \<Rightarrow> goval \<Rightarrow> builder" where
  "Lt column value = (\<lambda>d buf. buildCmp d buf ''<'' column value)"

definition Lte :: "string \<Rightarrow> goval \<Rightarrow> builder" where
  "Lte column value = (\<lambda>d buf. buildCmp d buf ''<='' column value)"

text \<open>
  \<^verbatim>\<open>buildLikeCmp\<close> recurs through \<^verbatim>\<open>v.Elem().Interface()\<close>; a slice of another
  element kind than \<^verbatim>\<open>uint8\<close> and \<^verbatim>\<open>int32\<close> falls through to the default case.
\<close>

function buildLikeCmp :: "dialect \<Rightarrow> buffer \<Rightarrow> string \<Rightarrow> string \<Rightarrow> goval \<Rightarrow> outcome \<times> buffer" where
  "buildLikeCmp d buf pred column value =
     (if value = VNil then (Return (Some ErrColumnNotSpecified), buf)
      else let v = ValueOf value in
        case Kind v of
          String \<Rightarrow> buildCmp d buf pred column value
        | Ptr \<Rightarrow>
            (case Elem v of
               Inl p \<Rightarrow> (Panic p, buf)
             | Inr e \<Rightarrow>
                 (case Interface_of e of
                    Inl p \<Rightarrow> (Panic p, buf)
                  | Inr x \<Rightarrow> buildLikeCmp d buf pred column x))
        | Interface \<Rightarrow>
            (case Elem v of
               Inl p \<Rightarrow> (Panic p, buf)
             | Inr e \<Rightarrow>
                 (case Interface_of e of
                    Inl p \<Rightarrow> (Panic p, buf)
                  | Inr x \<Rightarrow> buildLikeCmp d buf pred column x))
        | Slice \<Rightarrow>
            (case Type_Elem_Kind v of
               Inl p \<Rightarrow> (Panic p, buf)
             | Inr Uint8 \<Rightarrow> buildCmp d buf pred column value
             | Inr Int32 \<Rightarrow>
                 (case assert_runes value of
                    Inl p \<Rightarrow> (Panic p, buf)
                  | Inr rs \<Rightarrow> buildCmp d buf pred column (VString None (string_of_runes rs)))
             | Inr _ \<Rightarrow> (Return (Some ErrColumnNotSpecified), buf))
        | _ \<Rightarrow> (Return (Some ErrColumnNotSpecified), buf))"
  by pat_completeness auto

termination buildLikeCmp
  by (relation "measure (\<lambda>(d, buf, pred, column, value). size value)")
     (auto simp: ValueOf_def elim!: Elem.elims Interface_of.elims split: if_splits)

declare buildLikeCmp.simps [simp del]

definition Like :: "string \<Rightarrow> goval \<Rightarrow> builder" where
  "Like column value = (\<lambda>d buf. buildLikeCmp d buf ''LIKE'' column value)"

definition NotLike :: "string \<Rightarrow> goval \<Rightarrow> builder" where
  "NotLike column value = (\<lambda>d buf. buildLikeCmp d buf ''NOT LIKE'' column value)"

section \<open>Builder trees and the notions the properties are stated with\<close>

text \<open>
  A Builder tree: an expression made of the ten constructors of \<^verbatim>\<open>condition.go\<close>, and the
  Builder it denotes.
\<close>

datatype expr =
    AndE "expr list"
  | OrE "expr list"
  | EqE string goval
  | NeqE string goval
  | GtE string goval
  | GteE string goval
  | LtE string goval
  | LteE string goval
  | LikeE string goval
  | NotLikeE string goval

fun builder_of :: "expr \<Rightarrow> builder" where
  "builder_of (AndE es) = And (map builder_of es)"
| "builder_of (OrE es) = Or (map builder_of es)"
| "builder_of (EqE c v) = Eq c v"
| "builder_of (NeqE c v) = Neq c v"
| "builder_of (GtE c v) = Gt c v"
| "builder_of (GteE c v) = Gte c v"
| "builder_of (LtE c v) = Lt c v"
| "builder_of (LteE c v) = Lte c v"
| "builder_of (LikeE c v) = Like c v"
| "builder_of (NotLikeE c v) = NotLike c v"

text \<open>The column names of the predicates of a tree.\<close>

fun columns_of :: "expr \<Rightarrow> string list" where
  "columns_of (AndE es) = concat (map columns_of es)"
| "columns_of (OrE es) = concat (map columns_of es)"
| "columns_of (EqE c v) = [c]"
| "columns_of (NeqE c v) = [c]"
| "columns_of (GtE c v) = [c]"
| "columns_of (GteE c v) = [c]"
| "columns_of (LtE c v) = [c]"
| "columns_of (LteE c v) = [c]"
| "columns_of (LikeE c v) = [c]"
| "columns_of (NotLikeE c v) = [c]"

text \<open>
  The number of placeholder tokens in a text: the positions at which the token \<open>p\<close>
  starts.
\<close>

fun occurrences :: "string \<Rightarrow> string \<Rightarrow> nat" where
  "occurrences p [] = 0"
| "occurrences p (x # xs) = (if prefix p (x # xs) then 1 else 0) + occurrences p xs"

text \<open>Texts joined by a separator that stands between consecutive texts only.\<close>

fun join_with :: "string \<Rightarrow> string list \<Rightarrow> string" where
  "join_with sep [] = []"
| "join_with sep [x] = x"
| "join_with sep (x # y # ys) = x @ sep @ join_with sep (y # ys)"

text \<open>
  The value a pointer chain leads to: \<open>None\<close> when the chain ends in a nil pointer, where
  there is nothing to dereference.
\<close>

fun strip_indirection :: "goval \<Rightarrow> goval option" where
  "strip_indirection (VPtr _ None) = None"
| "strip_indirection (VPtr _ (Some x)) = strip_indirection x"
| "strip_indirection v = Some v"

text \<open>
  A Dialect for the concrete evaluations below: identifiers in brackets, booleans as
  \<open>1\<close> and \<open>0\<close>.
\<close>

definition sample_dialect :: dialect where
  "sample_dialect =
     \<lparr>QuoteIdent = (\<lambda>s. ''['' @ s @ '']''), EncodeBool = (\<lambda>b. if b then ''1'' else ''0'')\<rparr>"

section \<open>Comparison predicates\<close>

lemma buildCmp_eq:
  "buildCmp d buf pred column v =
     (Return None,
      buf\<lparr>buf_string := buf_string buf @ QuoteIdent d column @ '' '' @ pred @ '' '' @ placeholder,
          buf_value := buf_value buf @ [v]\<rparr>)"
  by (simp add: buildCmp_def WriteString_def WriteValue_def)

lemma Kind_eq_Slice: "Kind (ValueOf v) = Slice \<longleftrightarrow> (\<exists>n t xs. v = VSlice n t xs)"
proof (cases v)
  case (VInt n k i)
  then show ?thesis by (cases k) (simp_all add: ValueOf_def)
next
  case (VOther n k s)
  then show ?thesis by (cases k) (simp_all add: ValueOf_def)
qed (simp_all add: ValueOf_def)

text \<open>
  Claim C1. For every column name \<open>c\<close> and every value \<open>v\<close>, the Builder \<open>Eq c v\<close>
  returns nil, and what it appends to the Buffer is given by an exhaustive case split:
  for the nil interface the quoted column and \<^verbatim>\<open> IS NULL\<close>, no bound value; for a slice
  without elements (a nil slice included) the dialect's literal for false alone, no bound
  value; for a slice with elements the quoted column, \<^verbatim>\<open> IN \<close> and one placeholder, with
  the whole slice as the one bound value; for every other value the quoted column,
  \<^verbatim>\<open> = \<close> and one placeholder, with \<open>v\<close> bound. Null is the nil interface, what the code
  compares with \<^verbatim>\<open>nil\<close>; a nil pointer in an interface is a value of the last case.
\<close>

theorem Eq_renders:
  "Eq c v d buf =
     (Return None,
      if v = VNil then buf\<lparr>buf_string := buf_string buf @ QuoteIdent d c @ '' IS NULL''\<rparr>
      else if Kind (ValueOf v) = Slice \<and> Len (ValueOf v) = Inr 0
        then buf\<lparr>buf_string := buf_string buf @ EncodeBool d False\<rparr>
      else if Kind (ValueOf v) = Slice
        then buf\<lparr>buf_string := buf_string buf @ QuoteIdent d c @ '' IN '' @ placeholder,
                 buf_value := buf_value buf @ [v]\<rparr>
      else buf\<lparr>buf_string := buf_string buf @ QuoteIdent d c @ '' = '' @ placeholder,
               buf_value := buf_value buf @ [v]\<rparr>)"
proof (cases "Kind (ValueOf v) = Slice")
  case True
  then obtain n t xs where "v = VSlice n t xs"
    by (auto simp: Kind_eq_Slice)
  then show ?thesis
    by (simp add: Eq_def ValueOf_def buildCmp_eq WriteString_def)
next
  case False
  then show ?thesis
    by (simp add: Eq_def buildCmp_eq WriteString_def)
qed

text \<open>
  Claim C3. For every column \<open>c\<close> and value \<open>v\<close>, \<open>Neq c v\<close> returns nil and mirrors the
  case split of \<open>Eq\<close>: the nil interface gives the quoted column and \<^verbatim>\<open> IS NOT NULL\<close>
  with nothing bound; a slice without elements gives the dialect's literal for true
  alone with nothing bound; a slice with elements gives the quoted column, \<^verbatim>\<open> NOT IN \<close>
  and one placeholder with the slice as the one bound value; every other value gives the
  quoted column, \<^verbatim>\<open> != \<close> and one placeholder with the value bound.
\<close>

theorem Neq_renders:
  "Neq c v d buf =
     (Return None,
      if v = VNil then buf\<lparr>buf_string := buf_string buf @ QuoteIdent d c @ '' IS NOT NULL''\<rparr>
      else if Kind (ValueOf v) = Slice \<and> Len (ValueOf v) = Inr 0
        then buf\<lparr>buf_string := buf_string buf @ EncodeBool d True\<rparr>
      else if Kind (ValueOf v) = Slice
        then buf\<lparr>buf_string := buf_string buf @ QuoteIdent d c @ '' NOT IN '' @ placeholder,
                 buf_value := buf_value buf @ [v]\<rparr>
      else buf\<lparr>buf_string := buf_string buf @ QuoteIdent d c @ '' != '' @ placeholder,
               buf_value := buf_value buf @ [v]\<rparr>)"
proof (cases "Kind (ValueOf v) = Slice")
  case True
  then obtain n t xs where "v = VSlice n t xs"
    by (auto simp: Kind_eq_Slice)
  then show ?thesis
    by (simp add: Neq_def ValueOf_def buildCmp_eq WriteString_def)
next
  case False
  then show ?thesis
    by (simp add: Neq_def buildCmp_eq WriteString_def)
qed

text \<open>
  Claim C7. For every column \<open>c\<close> and every value \<open>v\<close>, the nil interface and slices
  included, each of \<open>Gt\<close>, \<open>Gte\<close>, \<open>Lt\<close> and \<open>Lte\<close> returns nil and appends the quoted
  column, a space, its operator (\<^verbatim>\<open>>\<close>, \<^verbatim>\<open>>=\<close>, \<^verbatim>\<open><\<close>, \<^verbatim>\<open><=\<close>), a space and one
  placeholder, and appends \<open>v\<close> as exactly one bound value, whatever the shape of \<open>v\<close>.
\<close>

theorem ordering_renders:
  "Gt c v d buf =
     (Return None, buf\<lparr>buf_string := buf_string buf @ QuoteIdent d c @ '' > '' @ placeholder,
                      buf_value := buf_value buf @ [v]\<rparr>) \<and>
   Gte c v d buf =
     (Return None, buf\<lparr>buf_string := buf_string buf @ QuoteIdent d c @ '' >= '' @ placeholder,
                      buf_value := buf_value buf @ [v]\<rparr>) \<and>
   Lt c v d buf =
     (Return None, buf\<lparr>buf_string := buf_string buf @ QuoteIdent d c @ '' < '' @ placeholder,
                      buf_value := buf_value buf @ [v]\<rparr>) \<and>
   Lte c v d buf =
     (Return None, buf\<lparr>buf_string := buf_string buf @ QuoteIdent d c @ '' <= '' @ placeholder,
                      buf_value := buf_value buf @ [v]\<rparr>)"
  by (simp add: Gt_def Gte_def Lt_def Lte_def buildCmp_eq)

section \<open>Logical combinators\<close>

lemma join_with_Cons:
  "join_with sep (x # xs) = x @ (if xs = [] then [] else sep @ join_with sep xs)"
  by (cases xs) simp_all

lemma buildCond_from_append:
  "buildCond_from i d buf pred (xs @ ys) =
     (if fst (buildCond_from i d buf pred xs) = Return None
      then buildCond_from (i + length xs) d (snd (buildCond_from i d buf pred xs)) pred ys
      else buildCond_from i d buf pred xs)"
proof (induction xs arbitrary: i buf)
  case Nil
  show ?case by simp
next
  case (Cons c xs)
  show ?case
    by (simp add: Cons.IH Let_def split: prod.splits outcome.splits option.splits)
qed

lemma buildCond_from_outs:
  assumes "list_all2 (\<lambda>c out. \<forall>buf. c d buf =
             (Return None, buf\<lparr>buf_string := buf_string buf @ fst out,
                               buf_value := buf_value buf @ snd out\<rparr>)) cond outs"
  shows "buildCond_from i d buf pred cond =
           (Return None,
            buf\<lparr>buf_string := buf_string buf @ (if 0 < i \<and> outs \<noteq> [] then '' '' @ pred @ '' '' else [])
                   @ join_with ('' '' @ pred @ '' '') (map (\<lambda>out. ''('' @ fst out @ '')'') outs),
                buf_value := buf_value buf @ concat (map snd outs)\<rparr>)"
  using assms
proof (induction cond outs arbitrary: i buf rule: list_all2_induct)
  case Nil
  show ?case by simp
next
  case (Cons c cs out outs)
  show ?case
    by (simp add: Cons.hyps(1) Cons.IH join_with_Cons WriteString_def Let_def)
qed

text \<open>
  Claim C4. For every ordered sequence of child Builders, \<open>And\<close> (and \<open>Or\<close>) renders
  each child's output in parentheses, with \<^verbatim>\<open> AND \<close> (and \<^verbatim>\<open> OR \<close>) between consecutive
  children only, none before the first child and none after the last; the bound values
  of the children follow in the order of the children; with no child at all it leaves the
  Buffer as it is and returns nil. A child's output is what it appends to the Buffer when
  it returns nil: \<open>outs\<close> lists, child by child, the text and the bound values.
\<close>

theorem And_Or_render:
  "(list_all2 (\<lambda>c out. \<forall>buf. c d buf =
       (Return None, buf\<lparr>buf_string := buf_string buf @ fst out,
                         buf_value := buf_value buf @ snd out\<rparr>)) cond outs \<longrightarrow>
      And cond d buf =
        (Return None,
         buf\<lparr>buf_string := buf_string buf @ join_with '' AND '' (map (\<lambda>out. ''('' @ fst out @ '')'') outs),
             buf_value := buf_value buf @ concat (map snd outs)\<rparr>) \<and>
      Or cond d buf =
        (Return None,
         buf\<lparr>buf_string := buf_string buf @ join_with '' OR '' (map (\<lambda>out. ''('' @ fst out @ '')'') outs),
             buf_value := buf_value buf @ concat (map snd outs)\<rparr>)) \<and>
   And [] d buf = (Return None, buf) \<and>
   Or [] d buf = (Return None, buf)"
  by (simp add: And_def Or_def buildCond_def buildCond_from_outs)

theorem And_Or_render_witness:
  "And [Eq ''a'' (VInt None KInt 1), Gt ''b'' (VInt None KInt 2)] sample_dialect empty_buffer =
     (Return None, \<lparr>buf_string = ''([a] = ?) AND ([b] > ?)'',
                    buf_value = [VInt None KInt 1, VInt None KInt 2]\<rparr>) \<and>
   Or [Eq ''a'' (VInt None KInt 1), Gt ''b'' (VInt None KInt 2)] sample_dialect empty_buffer =
     (Return None, \<lparr>buf_string = ''([a] = ?) OR ([b] > ?)'',
                    buf_value = [VInt None KInt 1, VInt None KInt 2]\<rparr>)"
proof -
  let ?cond = "[Eq ''a'' (VInt None KInt 1), Gt ''b'' (VInt None KInt 2)]"
  let ?outs = "[(''[a] = ?'', [VInt None KInt 1]), (''[b] > ?'', [VInt None KInt 2])]"
  have "list_all2 (\<lambda>c out. \<forall>buf. c sample_dialect buf =
       (Return None, buf\<lparr>buf_string := buf_string buf @ fst out,
                         buf_value := buf_value buf @ snd out\<rparr>)) ?cond ?outs"
    by (simp add: Eq_def Gt_def buildCmp_eq ValueOf_def sample_dialect_def placeholder_def)
  with And_Or_render [of sample_dialect ?cond ?outs empty_buffer]
  show ?thesis
    by (simp add: empty_buffer_def)
qed

text \<open>
  Claim C5. When a child of \<open>And\<close> or \<open>Or\<close> returns an error, the children before it
  having returned nil, the combinator returns that same error, no later sibling is
  rendered, and the Buffer is left as the failing child left it: the opening parenthesis
  is written, the closing one is not, and nothing of the siblings \<open>after\<close> is. The
  failing child is called on the Buffer of its predecessors, the separator (when it has
  a predecessor) and the opening parenthesis.
\<close>

theorem child_error_aborts:
  assumes "(comb, pred) = (And, ''AND'') \<or> (comb, pred) = (Or, ''OR'')"
    and "comb before d buf = (Return None, buf')"
    and "c d (buf'\<lparr>buf_string := buf_string buf'
               @ (if before = [] then [] else '' '' @ pred @ '' '') @ ''(''\<rparr>)
           = (Return (Some err), buf'')"
  shows "comb (before @ c # after) d buf = (Return (Some err), buf'')"
proof -
  from assms(1) have comb: "comb = (\<lambda>cond d buf. buildCond d buf pred cond)"
    by (auto simp: And_def Or_def fun_eq_iff)
  from assms(2) have before: "buildCond_from 0 d buf pred before = (Return None, buf')"
    by (simp add: comb buildCond_def)
  show ?thesis
    using assms(3) before
    by (cases "before = []")
       (auto simp: comb buildCond_def buildCond_from_append WriteString_def)
qed

theorem child_error_aborts_witness:
  "And ([Eq ''a'' (VInt None KInt 1)]
        @ (\<lambda>d buf. (Return (Some (ErrOther ''boom'')), WriteString ''partial'' buf))
        # [\<lambda>d buf. (Return None, WriteString ''INVOKED'' buf)]) sample_dialect empty_buffer =
     (Return (Some (ErrOther ''boom'')),
      \<lparr>buf_string = ''([a] = ?) AND (partial'', buf_value = [VInt None KInt 1]\<rparr>)"
proof -
  have "And [Eq ''a'' (VInt None KInt 1)] sample_dialect empty_buffer =
      (Return None, \<lparr>buf_string = ''([a] = ?)'', buf_value = [VInt None KInt 1]\<rparr>)"
    by (simp add: And_def buildCond_def Eq_def buildCmp_eq ValueOf_def WriteString_def
        sample_dialect_def placeholder_def empty_buffer_def)
  then show ?thesis
    using child_error_aborts [where comb = And and pred = "''AND''"
        and before = "[Eq ''a'' (VInt None KInt 1)]" and d = sample_dialect
        and buf = empty_buffer
        and buf' = "\<lparr>buf_string = ''([a] = ?)'', buf_value = [VInt None KInt 1]\<rparr>"
        and c = "\<lambda>d buf. (Return (Some (ErrOther ''boom'')), WriteString ''partial'' buf)"
        and err = "ErrOther ''boom''"
        and buf'' = "\<lparr>buf_string = ''([a] = ?) AND (partial'', buf_value = [VInt None KInt 1]\<rparr>"
        and after = "[\<lambda>d buf. (Return None, WriteString ''INVOKED'' buf)]"]
    by (simp add: WriteString_def)
qed

section \<open>Pattern-match predicates\<close>

lemma buildLikeCmp_nil:
  "buildLikeCmp d buf pred c VNil = (Return (Some ErrColumnNotSpecified), buf)"
  by (subst buildLikeCmp.simps) simp

lemma buildLikeCmp_string:
  "buildLikeCmp d buf pred c (VString n s) = buildCmp d buf pred c (VString n s)"
  by (subst buildLikeCmp.simps) (simp add: ValueOf_def)

lemma buildLikeCmp_nil_pointer:
  "buildLikeCmp d buf pred c (VPtr n None) =
     (Panic ''reflect: call of reflect.Value.Interface on zero Value'', buf)"
  by (subst buildLikeCmp.simps) (simp add: ValueOf_def)

lemma buildLikeCmp_pointer:
  "buildLikeCmp d buf pred c (VPtr n (Some x)) = buildLikeCmp d buf pred c x"
  by (subst buildLikeCmp.simps) (simp add: ValueOf_def)

lemma buildLikeCmp_slice:
  "buildLikeCmp d buf pred c (VSlice n t xs) =
     (if elem_kind t = Uint8 then buildCmp d buf pred c (VSlice n t xs)
      else if elem_kind t = Int32 then
        (case assert_runes (VSlice n t xs) of
           Inl p \<Rightarrow> (Panic p, buf)
         | Inr rs \<Rightarrow> buildCmp d buf pred c (VString None (string_of_runes rs)))
      else (Return (Some ErrColumnNotSpecified), buf))"
  by (subst buildLikeCmp.simps) (cases "elem_kind t"; simp add: ValueOf_def)

lemma buildLikeCmp_bool:
  "buildLikeCmp d buf pred c (VBool n b) = (Return (Some ErrColumnNotSpecified), buf)"
  by (subst buildLikeCmp.simps) (simp add: ValueOf_def)

lemma buildLikeCmp_int:
  "buildLikeCmp d buf pred c (VInt n k i) = (Return (Some ErrColumnNotSpecified), buf)"
  by (subst buildLikeCmp.simps) (cases k; simp add: ValueOf_def)

lemma buildLikeCmp_other:
  "buildLikeCmp d buf pred c (VOther n k s) = (Return (Some ErrColumnNotSpecified), buf)"
  by (subst buildLikeCmp.simps) (cases k; simp add: ValueOf_def)

lemmas buildLikeCmp_cases =
  buildLikeCmp_nil buildLikeCmp_string buildLikeCmp_nil_pointer buildLikeCmp_pointer
  buildLikeCmp_slice buildLikeCmp_bool buildLikeCmp_int buildLikeCmp_other


lemma strip_indirection_no_pointer:
  "strip_indirection v = Some w \<Longrightarrow> w \<noteq> VPtr n p"
  by (induction v rule: strip_indirection.induct) auto

lemma buildLikeCmp_strip:
  "strip_indirection v = Some w \<Longrightarrow> buildLikeCmp d buf pred c v = buildLikeCmp d buf pred c w"
  by (induction v rule: strip_indirection.induct) (auto simp: buildLikeCmp_pointer)

lemma Kind_kinds:
  "Kind (ValueOf (VInt n k i)) \<notin> {String, Slice}"
  "Kind (ValueOf (VOther n k' s)) \<notin> {String, Slice}"
  by (cases k; simp add: ValueOf_def) (cases k'; simp add: ValueOf_def)

lemma those_opt_int32: "those_opt (map (int32_of \<circ> VInt None KInt32) rs) = Some rs"
  by (induction rs) simp_all

lemma assert_runes_int32:
  "assert_runes (VSlice None (ElemType Int32 None) (map (VInt None KInt32) rs)) = Inr rs"
  by (simp add: those_opt_int32)

lemma string_of_runes_Nil: "string_of_runes [] = []"
  by (simp add: string_of_runes_def)

text \<open>
  Claim C2, as amended. Let \<open>w\<close> be the value that \<open>v\<close> leads to when its pointers are
  dereferenced, no pointer on the way being nil. Then \<open>Like c v\<close>, and \<open>NotLike c v\<close> with
  the operator \<^verbatim>\<open>NOT LIKE\<close>, dispatch on the kind of \<open>w\<close>: a value of kind string
  appends the quoted column, the operator and one placeholder and binds \<open>w\<close>; a slice
  whose element kind is \<^verbatim>\<open>uint8\<close> does the same and binds \<open>w\<close> unmodified; a value of
  type \<^verbatim>\<open>[]rune\<close> does the same and binds the text its runes convert to; and the Builder
  returns \<^verbatim>\<open>ErrColumnNotSpecified\<close>, leaving the Buffer as it was, exactly when \<open>w\<close> is
  the nil interface, or of a kind other than string and slice, or a slice whose element
  kind is neither \<^verbatim>\<open>uint8\<close> nor \<^verbatim>\<open>int32\<close>. The theorem says nothing of a chain that ends
  in a nil pointer, and of a slice of element kind \<^verbatim>\<open>int32\<close> whose type is not
  \<^verbatim>\<open>[]rune\<close> only that the error is not returned.
\<close>

theorem Like_dispatch:
  assumes "strip_indirection v = Some w"
    and "(f, op) = (Like, ''LIKE'') \<or> (f, op) = (NotLike, ''NOT LIKE'')"
  shows
    "(Kind (ValueOf w) = String \<longrightarrow>
        f c v d buf =
          (Return None,
           buf\<lparr>buf_string := buf_string buf @ QuoteIdent d c @ '' '' @ op @ '' '' @ placeholder,
               buf_value := buf_value buf @ [w]\<rparr>)) \<and>
     (Kind (ValueOf w) = Slice \<and> Type_Elem_Kind (ValueOf w) = Inr Uint8 \<longrightarrow>
        f c v d buf =
          (Return None,
           buf\<lparr>buf_string := buf_string buf @ QuoteIdent d c @ '' '' @ op @ '' '' @ placeholder,
               buf_value := buf_value buf @ [w]\<rparr>)) \<and>
     (assert_runes w = Inr rs \<longrightarrow>
        f c v d buf =
          (Return None,
           buf\<lparr>buf_string := buf_string buf @ QuoteIdent d c @ '' '' @ op @ '' '' @ placeholder,
               buf_value := buf_value buf @ [VString None (string_of_runes rs)]\<rparr>)) \<and>
     (f c v d buf = (Return (Some ErrColumnNotSpecified), buf) \<longleftrightarrow>
        w = VNil \<or> Kind (ValueOf w) \<notin> {String, Slice} \<or>
        Kind (ValueOf w) = Slice \<and> Type_Elem_Kind (ValueOf w) \<notin> {Inr Uint8, Inr Int32}) \<and>
     (fst (f c v d buf) = Return (Some ErrColumnNotSpecified) \<longleftrightarrow>
        f c v d buf = (Return (Some ErrColumnNotSpecified), buf))"
proof -
  from assms(2) have f: "f c v d buf = buildLikeCmp d buf op c w"
    by (auto simp: Like_def NotLike_def buildLikeCmp_strip [OF assms(1)])
  show ?thesis
  proof (cases w)
    case VNil
    then show ?thesis by (simp add: f buildLikeCmp_nil ValueOf_def)
  next
    case (VBool n b)
    then show ?thesis by (simp add: f buildLikeCmp_bool ValueOf_def)
  next
    case (VInt n k i)
    with Kind_kinds(1) [of n k i] show ?thesis
      by (simp add: f buildLikeCmp_int)
  next
    case (VString n s)
    then show ?thesis by (simp add: f buildLikeCmp_string buildCmp_eq ValueOf_def)
  next
    case (VPtr n p)
    with strip_indirection_no_pointer [OF assms(1), of n p] show ?thesis by simp
  next
    case (VSlice n t xs)
    then show ?thesis
      by (cases "assert_runes (VSlice n t xs)")
         (auto simp: f buildLikeCmp_slice buildCmp_eq ValueOf_def elim!: assert_runes.elims)
  next
    case (VOther n k s)
    with Kind_kinds(2) [of n k s] show ?thesis
      by (simp add: f buildLikeCmp_other)
  qed
qed


lemma string_of_runes_foo: "string_of_runes [102, 111, 111] = ''foo''"
  by (simp add: string_of_runes_def encoderune_def char_of_def)

lemma string_of_runes_e: "string_of_runes [0xE9, 0x20AC] = [CHR 0xC3, CHR 0xA9, CHR 0xE2, CHR 0x82, CHR 0xAC]"
  by (simp add: string_of_runes_def encoderune_def char_of_def)

text \<open>
  The dispatch at concrete values: \<^verbatim>\<open>Like("name", "foo")\<close> binds the text, bytes behind a
  pointer are bound as they are, the runes of \<^verbatim>\<open>foo\<close> are bound as text,
  \<^verbatim>\<open>Like("name", 42)\<close> and a pointer to a nil interface give \<^verbatim>\<open>ErrColumnNotSpecified\<close>.
\<close>

theorem Like_dispatch_witness:
  "Like ''name'' (VString None ''foo'') sample_dialect empty_buffer =
     (Return None, \<lparr>buf_string = ''[name] LIKE ?'', buf_value = [VString None ''foo'']\<rparr>) \<and>
   NotLike ''name'' (VPtr None (Some (VSlice None (ElemType Uint8 None) [VInt None KUint8 37])))
       sample_dialect empty_buffer =
     (Return None, \<lparr>buf_string = ''[name] NOT LIKE ?'',
                    buf_value = [VSlice None (ElemType Uint8 None) [VInt None KUint8 37]]\<rparr>) \<and>
   Like ''name''
       (VSlice None (ElemType Int32 None) [VInt None KInt32 102, VInt None KInt32 111, VInt None KInt32 111])
       sample_dialect empty_buffer =
     (Return None, \<lparr>buf_string = ''[name] LIKE ?'', buf_value = [VString None ''foo'']\<rparr>) \<and>
   Like ''name'' (VInt None KInt 42) sample_dialect empty_buffer =
     (Return (Some ErrColumnNotSpecified), empty_buffer) \<and>
   Like ''name'' (VPtr None (Some VNil)) sample_dialect empty_buffer =
     (Return (Some ErrColumnNotSpecified), empty_buffer)"
proof -
  note d = Like_dispatch [where d = sample_dialect and buf = empty_buffer and c = "''name''"]
  have 1: "(Like, ''LIKE'') = (Like, ''LIKE'') \<or> (Like, ''LIKE'') = (NotLike, ''NOT LIKE'')"
    and 2: "(NotLike, ''NOT LIKE'') = (Like, ''LIKE'') \<or> (NotLike, ''NOT LIKE'') = (NotLike, ''NOT LIKE'')"
    by simp_all
  have a: "strip_indirection (VString None ''foo'') = Some (VString None ''foo'')"
    by simp
  have b: "strip_indirection (VPtr None (Some (VSlice None (ElemType Uint8 None) [VInt None KUint8 37])))
      = Some (VSlice None (ElemType Uint8 None) [VInt None KUint8 37])"
    by simp
  have c: "strip_indirection (VSlice None (ElemType Int32 None)
        [VInt None KInt32 102, VInt None KInt32 111, VInt None KInt32 111])
      = Some (VSlice None (ElemType Int32 None)
        [VInt None KInt32 102, VInt None KInt32 111, VInt None KInt32 111])"
    by simp
  have e: "strip_indirection (VInt None KInt 42) = Some (VInt None KInt 42)"
    by simp
  have g: "strip_indirection (VPtr None (Some VNil)) = Some VNil"
    by simp
  show ?thesis
    using d [OF a 1] d [OF b 2] d [OF c 1, of "[102, 111, 111]"] d [OF e 1] d [OF g 1]
    by (simp add: ValueOf_def sample_dialect_def placeholder_def empty_buffer_def
        string_of_runes_foo)
qed

text \<open>
  Claim C2 as stated fails at a nil pointer, \<^verbatim>\<open>Like("name", (*string)(nil))\<close>: the value
  is not the nil interface, its kind is \<^verbatim>\<open>Ptr\<close>, \<^verbatim>\<open>v.Elem()\<close> is the zero Value and
  \<^verbatim>\<open>Interface()\<close> panics on it, so the Builder neither renders nor returns
  \<^verbatim>\<open>ErrColumnNotSpecified\<close>. It fails as well at a slice of \<^verbatim>\<open>type MyRune int32\<close>,
  where the assertion \<^verbatim>\<open>value.([]rune)\<close> panics. And the dispatch is on the kind, not on
  the type: a slice of \<^verbatim>\<open>type MyByte uint8\<close>, another element type than \<^verbatim>\<open>byte\<close>, is
  bound as bytes are.
\<close>

theorem Like_nil_pointer_counterexample:
  "Like ''name'' (VPtr None None) sample_dialect empty_buffer =
     (Panic ''reflect: call of reflect.Value.Interface on zero Value'', empty_buffer) \<and>
   fst (Like ''name'' (VPtr None None) sample_dialect empty_buffer)
     \<noteq> Return (Some ErrColumnNotSpecified) \<and>
   fst (Like ''name'' (VPtr None None) sample_dialect empty_buffer) \<noteq> Return None \<and>
   Like ''name'' (VSlice None (ElemType Int32 (Some ''MyRune'')) [VInt (Some ''MyRune'') KInt32 37])
       sample_dialect empty_buffer =
     (Panic ''interface conversion: interface {} is not []int32'', empty_buffer) \<and>
   Like ''name'' (VSlice None (ElemType Uint8 (Some ''MyByte'')) [VInt (Some ''MyByte'') KUint8 37])
       sample_dialect empty_buffer =
     (Return None,
      \<lparr>buf_string = ''[name] LIKE ?'',
       buf_value = [VSlice None (ElemType Uint8 (Some ''MyByte'')) [VInt (Some ''MyByte'') KUint8 37]]\<rparr>)"
  by (simp add: Like_def buildLikeCmp_nil_pointer buildLikeCmp_slice buildCmp_eq
      sample_dialect_def placeholder_def empty_buffer_def)

text \<open>
  Claim C6 says that a pointer whose dereferenced value is null makes \<open>Like\<close> and
  \<open>NotLike\<close> return \<^verbatim>\<open>ErrColumnNotSpecified\<close> and never crash. The code does so for a
  pointer to an interface variable that holds nil, and panics for a nil pointer and for a
  pointer to a nil pointer: the test \<^verbatim>\<open>value == nil\<close> at the head of the recursion does
  not see a nil pointer inside an interface.
\<close>

theorem Like_null_after_dereference:
  "Like c (VPtr n None) d buf =
     (Panic ''reflect: call of reflect.Value.Interface on zero Value'', buf) \<and>
   NotLike c (VPtr n None) d buf =
     (Panic ''reflect: call of reflect.Value.Interface on zero Value'', buf) \<and>
   Like c (VPtr n (Some (VPtr m None))) d buf =
     (Panic ''reflect: call of reflect.Value.Interface on zero Value'', buf) \<and>
   NotLike c (VPtr n (Some (VPtr m None))) d buf =
     (Panic ''reflect: call of reflect.Value.Interface on zero Value'', buf) \<and>
   Like c (VPtr n (Some VNil)) d buf = (Return (Some ErrColumnNotSpecified), buf) \<and>
   NotLike c (VPtr n (Some VNil)) d buf = (Return (Some ErrColumnNotSpecified), buf)"
  by (simp add: Like_def NotLike_def buildLikeCmp_nil_pointer buildLikeCmp_pointer
      buildLikeCmp_nil)


text \<open>
  Claim C10, as amended. For \<open>Like\<close> and \<open>NotLike\<close> on a slice, what happens depends on
  the element kind and never on the length, the empty slice included: a slice of element
  kind \<^verbatim>\<open>uint8\<close> is bound unmodified; a value of type \<^verbatim>\<open>[]rune\<close> is bound as the text
  its runes convert to, the empty text for the empty slice; a slice of any element kind
  other than \<^verbatim>\<open>uint8\<close> and \<^verbatim>\<open>int32\<close> gives \<^verbatim>\<open>ErrColumnNotSpecified\<close> and leaves the
  Buffer as it was. The theorem says nothing of a slice of element kind \<^verbatim>\<open>int32\<close> whose
  type is not \<^verbatim>\<open>[]rune\<close>.
\<close>

theorem Like_slices:
  assumes "(f, op) = (Like, ''LIKE'') \<or> (f, op) = (NotLike, ''NOT LIKE'')"
  shows
    "(elem_kind t = Uint8 \<longrightarrow>
        f c (VSlice n t xs) d buf =
          (Return None,
           buf\<lparr>buf_string := buf_string buf @ QuoteIdent d c @ '' '' @ op @ '' '' @ placeholder,
               buf_value := buf_value buf @ [VSlice n t xs]\<rparr>)) \<and>
     f c (VSlice None (ElemType Int32 None) (map (VInt None KInt32) rs)) d buf =
       (Return None,
        buf\<lparr>buf_string := buf_string buf @ QuoteIdent d c @ '' '' @ op @ '' '' @ placeholder,
            buf_value := buf_value buf @ [VString None (string_of_runes rs)]\<rparr>) \<and>
     f c (VSlice None (ElemType Int32 None) []) d buf =
       (Return None,
        buf\<lparr>buf_string := buf_string buf @ QuoteIdent d c @ '' '' @ op @ '' '' @ placeholder,
            buf_value := buf_value buf @ [VString None []]\<rparr>) \<and>
     (elem_kind t \<notin> {Uint8, Int32} \<longrightarrow>
        f c (VSlice n t xs) d buf = (Return (Some ErrColumnNotSpecified), buf)) \<and>
     (elem_kind t \<noteq> Int32 \<longrightarrow>
        fst (f c (VSlice n t xs) d buf) = fst (f c (VSlice n t []) d buf))"
proof -
  from assms have f: "f = (\<lambda>c v d buf. buildLikeCmp d buf op c v)"
    by (auto simp: Like_def NotLike_def fun_eq_iff)
  show ?thesis
    using assert_runes_int32 [of rs]
    by (simp add: f buildLikeCmp_slice buildCmp_eq string_of_runes_Nil del: assert_runes.simps)
       (simp add: buildCmp_eq string_of_runes_Nil)
qed

theorem Like_slices_witness:
  "Like ''c'' (VSlice None (ElemType Uint8 None) []) sample_dialect empty_buffer =
     (Return None, \<lparr>buf_string = ''[c] LIKE ?'',
                    buf_value = [VSlice None (ElemType Uint8 None) []]\<rparr>) \<and>
   NotLike ''c'' (VSlice None (ElemType Int32 None) []) sample_dialect empty_buffer =
     (Return None, \<lparr>buf_string = ''[c] NOT LIKE ?'', buf_value = [VString None []]\<rparr>) \<and>
   Like ''c'' (VSlice None (ElemType String None) []) sample_dialect empty_buffer =
     (Return (Some ErrColumnNotSpecified), empty_buffer) \<and>
   Like ''c'' (VSlice None (ElemType String None) [VString None ''x'']) sample_dialect empty_buffer =
     (Return (Some ErrColumnNotSpecified), empty_buffer)"
proof -
  have 1: "(Like, ''LIKE'') = (Like, ''LIKE'') \<or> (Like, ''LIKE'') = (NotLike, ''NOT LIKE'')"
    and 2: "(NotLike, ''NOT LIKE'') = (Like, ''LIKE'') \<or> (NotLike, ''NOT LIKE'') = (NotLike, ''NOT LIKE'')"
    by simp_all
  show ?thesis
    using Like_slices [OF 1, of "ElemType Uint8 None" "''c''" None "[]" sample_dialect empty_buffer "[]"]
      Like_slices [OF 2, of "ElemType Uint8 None" "''c''" None "[]" sample_dialect empty_buffer "[]"]
      Like_slices [OF 1, of "ElemType String None" "''c''" None "[]" sample_dialect empty_buffer "[]"]
      Like_slices [OF 1, of "ElemType String None" "''c''" None "[VString None ''x'']"
        sample_dialect empty_buffer "[]"]
    by (simp add: sample_dialect_def placeholder_def empty_buffer_def)
qed

text \<open>
  Claim C10 as stated fails at \<^verbatim>\<open>Like("c", Runes{})\<close> with \<^verbatim>\<open>type Runes []rune\<close>, and at
  \<^verbatim>\<open>[]MyRune{}\<close> with \<^verbatim>\<open>type MyRune int32\<close>: the element kind is \<^verbatim>\<open>int32\<close>, the
  assertion \<^verbatim>\<open>value.([]rune)\<close> does not hold for the defined type, and the Builder
  panics, where the empty \<^verbatim>\<open>[]rune{}\<close> of the same element type renders. And an empty
  slice of \<^verbatim>\<open>type MyByte uint8\<close>, another element type than \<^verbatim>\<open>byte\<close>, does not fail: the
  code decides on the kind of the element type.
\<close>

theorem Like_defined_rune_slice_counterexample:
  "Like ''c'' (VSlice (Some ''Runes'') (ElemType Int32 None) []) sample_dialect empty_buffer =
     (Panic ''interface conversion: interface {} is not []int32'', empty_buffer) \<and>
   Like ''c'' (VSlice None (ElemType Int32 (Some ''MyRune'')) []) sample_dialect empty_buffer =
     (Panic ''interface conversion: interface {} is not []int32'', empty_buffer) \<and>
   Like ''c'' (VSlice None (ElemType Int32 None) []) sample_dialect empty_buffer =
     (Return None, \<lparr>buf_string = ''[c] LIKE ?'', buf_value = [VString None []]\<rparr>) \<and>
   Like ''c'' (VSlice None (ElemType Uint8 (Some ''MyByte'')) []) sample_dialect empty_buffer =
     (Return None, \<lparr>buf_string = ''[c] LIKE ?'',
                    buf_value = [VSlice None (ElemType Uint8 (Some ''MyByte'')) []]\<rparr>)"
  by (simp add: Like_def buildLikeCmp_slice buildCmp_eq sample_dialect_def placeholder_def
      empty_buffer_def string_of_runes_def)

section \<open>Placeholders, bound values and determinism\<close>

lemma occurrences_placeholder: "occurrences placeholder s = count_list s (CHR ''?'')"
  by (induction s) (simp_all add: placeholder_def)

lemma occurrences_append:
  "occurrences placeholder (s @ t) = occurrences placeholder s + occurrences placeholder t"
  by (simp add: occurrences_placeholder)

text \<open>
  Every Builder of the file appends: there are a result, a text and a list of values,
  the same for every Buffer, such that a render returns the result and appends the text
  and the values. The lemmas below carry, with this, the count of the placeholders in
  the appended text.
\<close>

lemma buildCond_from_appends:
  assumes "\<forall>c\<in>set cond. \<exists>r s vs.
             (\<forall>buf. c d buf = (r, buf\<lparr>buf_string := buf_string buf @ s,
                                      buf_value := buf_value buf @ vs\<rparr>)) \<and>
             (B \<longrightarrow> occurrences placeholder s = length vs)"
  shows "\<exists>r s vs.
           (\<forall>buf. buildCond_from i d buf pred cond =
              (r, buf\<lparr>buf_string := buf_string buf @ s, buf_value := buf_value buf @ vs\<rparr>)) \<and>
           (B \<and> occurrences placeholder pred = 0
              \<longrightarrow> occurrences placeholder s = length vs)"
  using assms
proof (induction cond arbitrary: i)
  case Nil
  have "\<forall>buf. buildCond_from i d buf pred [] =
      (Return None, buf\<lparr>buf_string := buf_string buf @ [], buf_value := buf_value buf @ []\<rparr>)"
    by simp
  moreover have "occurrences placeholder [] = length ([] :: goval list)"
    by simp
  ultimately show ?case by blast
next
  case (Cons c cond)
  from Cons.prems obtain r s vs where
    c: "\<And>buf. c d buf = (r, buf\<lparr>buf_string := buf_string buf @ s,
                                  buf_value := buf_value buf @ vs\<rparr>)"
    and cn: "B \<longrightarrow> occurrences placeholder s = length vs"
    by auto
  from Cons.prems have "\<forall>c\<in>set cond. \<exists>r s vs.
             (\<forall>buf. c d buf = (r, buf\<lparr>buf_string := buf_string buf @ s,
                                      buf_value := buf_value buf @ vs\<rparr>)) \<and>
             (B \<longrightarrow> occurrences placeholder s = length vs)"
    by simp
  from Cons.IH [OF this, of "Suc i"] obtain r' s' vs' where
    rest: "\<And>buf. buildCond_from (Suc i) d buf pred cond =
              (r', buf\<lparr>buf_string := buf_string buf @ s', buf_value := buf_value buf @ vs'\<rparr>)"
    and restn: "B \<and> occurrences placeholder pred = 0
              \<longrightarrow> occurrences placeholder s' = length vs'"
    by auto
  define sep where "sep = (if 0 < i then '' '' @ pred @ '' '' else [])"
  have sepn: "occurrences placeholder pred = 0 \<Longrightarrow> occurrences placeholder sep = 0"
    unfolding occurrences_placeholder by (simp add: sep_def)
  show ?case
  proof (cases "r = Return None")
    case True
    have "\<forall>buf. buildCond_from i d buf pred (c # cond) =
        (r', buf\<lparr>buf_string := buf_string buf @ (sep @ ''('' @ s @ '')'' @ s'),
                 buf_value := buf_value buf @ (vs @ vs')\<rparr>)"
      by (simp add: c rest True sep_def WriteString_def)
    moreover have "B \<and> occurrences placeholder pred = 0
        \<longrightarrow> occurrences placeholder (sep @ ''('' @ s @ '')'' @ s') = length (vs @ vs')"
      using cn restn sepn unfolding occurrences_placeholder by simp
    ultimately show ?thesis by blast
  next
    case False
    have "\<forall>buf. buildCond_from i d buf pred (c # cond) =
        (r, buf\<lparr>buf_string := buf_string buf @ (sep @ ''('' @ s),
                buf_value := buf_value buf @ vs\<rparr>)"
      using False
      by (cases r) (auto simp: c sep_def WriteString_def split: option.splits)
    moreover have "B \<and> occurrences placeholder pred = 0
        \<longrightarrow> occurrences placeholder (sep @ ''('' @ s) = length vs"
      using cn sepn unfolding occurrences_placeholder by simp
    ultimately show ?thesis by blast
  qed
qed


lemma appendsI:
  assumes "\<And>buf. f buf = (r, buf\<lparr>buf_string := buf_string buf @ s, buf_value := buf_value buf @ vs\<rparr>)"
    and "B \<Longrightarrow> occurrences placeholder s = length vs"
  shows "\<exists>r s vs.
           (\<forall>buf. f buf = (r, buf\<lparr>buf_string := buf_string buf @ s,
                                    buf_value := buf_value buf @ vs\<rparr>)) \<and>
           (B \<longrightarrow> occurrences placeholder s = length vs)"
  using assms by blast

lemma buildCmp_appends:
  "\<exists>r s vs.
     (\<forall>buf. buildCmp d buf pred c v =
        (r, buf\<lparr>buf_string := buf_string buf @ s, buf_value := buf_value buf @ vs\<rparr>)) \<and>
     (occurrences placeholder (QuoteIdent d c) = 0 \<and> occurrences placeholder pred = 0
        \<longrightarrow> occurrences placeholder s = length vs)"
proof (rule appendsI)
  show "buildCmp d buf pred c v =
      (Return None, buf\<lparr>buf_string := buf_string buf @ (QuoteIdent d c @ '' '' @ pred @ '' '' @ placeholder),
                       buf_value := buf_value buf @ [v]\<rparr>)" for buf
    by (simp add: buildCmp_eq)
  show "occurrences placeholder (QuoteIdent d c @ '' '' @ pred @ '' '' @ placeholder) = length [v]"
    if "occurrences placeholder (QuoteIdent d c) = 0 \<and> occurrences placeholder pred = 0"
    using that unfolding occurrences_placeholder by (simp add: placeholder_def)
qed

lemma failure_appends:
  "\<exists>r s vs.
     (\<forall>buf. (x, buf) =
        (r, buf\<lparr>buf_string := buf_string buf @ s, buf_value := buf_value buf @ vs\<rparr>)) \<and>
     (B \<longrightarrow> occurrences placeholder s = length vs)"
  by (rule exI [of _ x], rule exI [of _ "[]"], rule exI [of _ "[]"]) simp

lemma buildLikeCmp_slice_appends:
  "\<exists>r s vs.
     (\<forall>buf. buildLikeCmp d buf pred c (VSlice n t xs) =
        (r, buf\<lparr>buf_string := buf_string buf @ s, buf_value := buf_value buf @ vs\<rparr>)) \<and>
     (occurrences placeholder (QuoteIdent d c) = 0 \<and> occurrences placeholder pred = 0
        \<longrightarrow> occurrences placeholder s = length vs)"
proof (cases "elem_kind t = Uint8")
  case True
  then have "\<And>buf. buildLikeCmp d buf pred c (VSlice n t xs) =
      buildCmp d buf pred c (VSlice n t xs)"
    by (simp add: buildLikeCmp_slice)
  then show ?thesis by (simp only: buildCmp_appends)
next
  case no_bytes: False
  show ?thesis
  proof (cases "elem_kind t = Int32")
    case False
    with no_bytes have "\<And>buf. buildLikeCmp d buf pred c (VSlice n t xs) =
        (Return (Some ErrColumnNotSpecified), buf)"
      by (simp add: buildLikeCmp_slice)
    then show ?thesis by (simp only: failure_appends)
  next
    case True
    show ?thesis
    proof (cases "assert_runes (VSlice n t xs)")
      case (Inl p)
      with True have "\<And>buf. buildLikeCmp d buf pred c (VSlice n t xs) = (Panic p, buf)"
        by (simp add: buildLikeCmp_slice del: assert_runes.simps)
      then show ?thesis by (simp only: failure_appends)
    next
      case (Inr rs)
      with True have "\<And>buf. buildLikeCmp d buf pred c (VSlice n t xs) =
          buildCmp d buf pred c (VString None (string_of_runes rs))"
        by (simp add: buildLikeCmp_slice del: assert_runes.simps)
      then show ?thesis by (simp only: buildCmp_appends)
    qed
  qed
qed

lemma buildLikeCmp_appends:
  "\<exists>r s vs.
     (\<forall>buf. buildLikeCmp d buf pred c v =
        (r, buf\<lparr>buf_string := buf_string buf @ s, buf_value := buf_value buf @ vs\<rparr>)) \<and>
     (occurrences placeholder (QuoteIdent d c) = 0 \<and> occurrences placeholder pred = 0
        \<longrightarrow> occurrences placeholder s = length vs)"
  by (induction v rule: strip_indirection.induct)
     (simp_all only: buildLikeCmp_nil buildLikeCmp_string buildLikeCmp_nil_pointer
        buildLikeCmp_pointer buildLikeCmp_bool buildLikeCmp_int buildLikeCmp_other
        buildLikeCmp_slice_appends buildCmp_appends failure_appends)

lemma literal_appends:
  "\<exists>r s vs.
     (\<forall>buf. (Return None, WriteString lit buf) =
        (r, buf\<lparr>buf_string := buf_string buf @ s, buf_value := buf_value buf @ vs\<rparr>)) \<and>
     (occurrences placeholder lit = 0 \<longrightarrow> occurrences placeholder s = length vs)"
  by (rule exI [of _ "Return None"], rule exI [of _ lit], rule exI [of _ "[]"])
     (simp add: WriteString_def)

lemma null_test_appends:
  "\<exists>r s vs.
     (\<forall>buf. (Return None, WriteString lit (WriteString (QuoteIdent d c) buf)) =
        (r, buf\<lparr>buf_string := buf_string buf @ s, buf_value := buf_value buf @ vs\<rparr>)) \<and>
     (occurrences placeholder (QuoteIdent d c) = 0 \<and> occurrences placeholder lit = 0
        \<longrightarrow> occurrences placeholder s = length vs)"
  by (rule exI [of _ "Return None"], rule exI [of _ "QuoteIdent d c @ lit"], rule exI [of _ "[]"])
     (simp add: WriteString_def occurrences_append)

lemma weaken_appends:
  assumes "\<exists>r s vs.
     (\<forall>buf. f buf = (r, buf\<lparr>buf_string := buf_string buf @ s, buf_value := buf_value buf @ vs\<rparr>)) \<and>
     (A \<longrightarrow> occurrences placeholder s = length vs)"
    and "B \<Longrightarrow> A"
  shows "\<exists>r s vs.
     (\<forall>buf. f buf = (r, buf\<lparr>buf_string := buf_string buf @ s, buf_value := buf_value buf @ vs\<rparr>)) \<and>
     (B \<longrightarrow> occurrences placeholder s = length vs)"
  using assms by blast

lemma Eq_appends:
  "\<exists>r s vs.
     (\<forall>buf. Eq c v d buf =
        (r, buf\<lparr>buf_string := buf_string buf @ s, buf_value := buf_value buf @ vs\<rparr>)) \<and>
     (occurrences placeholder (QuoteIdent d c) = 0 \<and>
      occurrences placeholder (EncodeBool d True) = 0 \<and>
      occurrences placeholder (EncodeBool d False) = 0
        \<longrightarrow> occurrences placeholder s = length vs)"
proof -
  consider (null) "v = VNil" | (empty) n t where "v = VSlice n t []"
    | (slice) n t x xs where "v = VSlice n t (x # xs)"
    | (other) "v \<noteq> VNil" "Kind (ValueOf v) \<noteq> Slice"
    by (metis Kind_eq_Slice list.exhaust)
  then show ?thesis
  proof cases
    case null
    then have "Eq c v d = (\<lambda>buf. (Return None, WriteString '' IS NULL'' (WriteString (QuoteIdent d c) buf)))"
      by (simp add: Eq_def)
    then show ?thesis
      by (simp only:) (rule weaken_appends [OF null_test_appends], simp add: placeholder_def)
  next
    case empty
    then have "Eq c v d = (\<lambda>buf. (Return None, WriteString (EncodeBool d False) buf))"
      by (simp add: Eq_def ValueOf_def)
    then show ?thesis
      by (simp only:) (rule weaken_appends [OF literal_appends], simp)
  next
    case slice
    then have "Eq c v d = (\<lambda>buf. buildCmp d buf ''IN'' c v)"
      by (simp add: Eq_def ValueOf_def)
    then show ?thesis
      by (simp only:) (rule weaken_appends [OF buildCmp_appends], simp add: placeholder_def)
  next
    case other
    then have "Eq c v d = (\<lambda>buf. buildCmp d buf ''='' c v)"
      by (simp add: Eq_def)
    then show ?thesis
      by (simp only:) (rule weaken_appends [OF buildCmp_appends], simp add: placeholder_def)
  qed
qed

lemma Neq_appends:
  "\<exists>r s vs.
     (\<forall>buf. Neq c v d buf =
        (r, buf\<lparr>buf_string := buf_string buf @ s, buf_value := buf_value buf @ vs\<rparr>)) \<and>
     (occurrences placeholder (QuoteIdent d c) = 0 \<and>
      occurrences placeholder (EncodeBool d True) = 0 \<and>
      occurrences placeholder (EncodeBool d False) = 0
        \<longrightarrow> occurrences placeholder s = length vs)"
proof -
  consider (null) "v = VNil" | (empty) n t where "v = VSlice n t []"
    | (slice) n t x xs where "v = VSlice n t (x # xs)"
    | (other) "v \<noteq> VNil" "Kind (ValueOf v) \<noteq> Slice"
    by (metis Kind_eq_Slice list.exhaust)
  then show ?thesis
  proof cases
    case null
    then have "Neq c v d = (\<lambda>buf. (Return None, WriteString '' IS NOT NULL'' (WriteString (QuoteIdent d c) buf)))"
      by (simp add: Neq_def)
    then show ?thesis
      by (simp only:) (rule weaken_appends [OF null_test_appends], simp add: placeholder_def)
  next
    case empty
    then have "Neq c v d = (\<lambda>buf. (Return None, WriteString (EncodeBool d True) buf))"
      by (simp add: Neq_def ValueOf_def)
    then show ?thesis
      by (simp only:) (rule weaken_appends [OF literal_appends], simp)
  next
    case slice
    then have "Neq c v d = (\<lambda>buf. buildCmp d buf ''NOT IN'' c v)"
      by (simp add: Neq_def ValueOf_def)
    then show ?thesis
      by (simp only:) (rule weaken_appends [OF buildCmp_appends], simp add: placeholder_def)
  next
    case other
    then have "Neq c v d = (\<lambda>buf. buildCmp d buf ''!='' c v)"
      by (simp add: Neq_def)
    then show ?thesis
      by (simp only:) (rule weaken_appends [OF buildCmp_appends], simp add: placeholder_def)
  qed
qed


lemma builder_of_appends:
  "\<exists>r s vs.
     (\<forall>buf. builder_of t d buf =
        (r, buf\<lparr>buf_string := buf_string buf @ s, buf_value := buf_value buf @ vs\<rparr>)) \<and>
     ((\<forall>c\<in>set (columns_of t). occurrences placeholder (QuoteIdent d c) = 0) \<and>
      occurrences placeholder (EncodeBool d True) = 0 \<and>
      occurrences placeholder (EncodeBool d False) = 0
        \<longrightarrow> occurrences placeholder s = length vs)"
proof (induction t)
  case (AndE es)
  let ?B = "(\<forall>c\<in>set (columns_of (AndE es)). occurrences placeholder (QuoteIdent d c) = 0) \<and>
      occurrences placeholder (EncodeBool d True) = 0 \<and>
      occurrences placeholder (EncodeBool d False) = 0"
  have "\<forall>c\<in>set (map builder_of es). \<exists>r s vs.
      (\<forall>buf. c d buf = (r, buf\<lparr>buf_string := buf_string buf @ s,
                               buf_value := buf_value buf @ vs\<rparr>)) \<and>
      (?B \<longrightarrow> occurrences placeholder s = length vs)"
  proof
    fix c assume "c \<in> set (map builder_of es)"
    then obtain e where e: "e \<in> set es" and c: "c = builder_of e"
      by auto
    show "\<exists>r s vs.
      (\<forall>buf. c d buf = (r, buf\<lparr>buf_string := buf_string buf @ s,
                               buf_value := buf_value buf @ vs\<rparr>)) \<and>
      (?B \<longrightarrow> occurrences placeholder s = length vs)"
      unfolding c by (rule weaken_appends [OF AndE.IH [OF e]]) (use e in auto)
  qed
  from buildCond_from_appends [OF this, of 0 "''AND''"]
  show ?case
    by (simp add: And_def buildCond_def placeholder_def)
next
  case (OrE es)
  let ?B = "(\<forall>c\<in>set (columns_of (OrE es)). occurrences placeholder (QuoteIdent d c) = 0) \<and>
      occurrences placeholder (EncodeBool d True) = 0 \<and>
      occurrences placeholder (EncodeBool d False) = 0"
  have "\<forall>c\<in>set (map builder_of es). \<exists>r s vs.
      (\<forall>buf. c d buf = (r, buf\<lparr>buf_string := buf_string buf @ s,
                               buf_value := buf_value buf @ vs\<rparr>)) \<and>
      (?B \<longrightarrow> occurrences placeholder s = length vs)"
  proof
    fix c assume "c \<in> set (map builder_of es)"
    then obtain e where e: "e \<in> set es" and c: "c = builder_of e"
      by auto
    show "\<exists>r s vs.
      (\<forall>buf. c d buf = (r, buf\<lparr>buf_string := buf_string buf @ s,
                               buf_value := buf_value buf @ vs\<rparr>)) \<and>
      (?B \<longrightarrow> occurrences placeholder s = length vs)"
      unfolding c by (rule weaken_appends [OF OrE.IH [OF e]]) (use e in auto)
  qed
  from buildCond_from_appends [OF this, of 0 "''OR''"]
  show ?case
    by (simp add: Or_def buildCond_def placeholder_def)
next
  case (EqE c v)
  show ?case
    by (simp only: builder_of.simps) (rule weaken_appends [OF Eq_appends], simp)
next
  case (NeqE c v)
  show ?case
    by (simp only: builder_of.simps) (rule weaken_appends [OF Neq_appends], simp)
next
  case (GtE c v)
  show ?case
    by (simp only: builder_of.simps Gt_def)
       (rule weaken_appends [OF buildCmp_appends], simp add: placeholder_def)
next
  case (GteE c v)
  show ?case
    by (simp only: builder_of.simps Gte_def)
       (rule weaken_appends [OF buildCmp_appends], simp add: placeholder_def)
next
  case (LtE c v)
  show ?case
    by (simp only: builder_of.simps Lt_def)
       (rule weaken_appends [OF buildCmp_appends], simp add: placeholder_def)
next
  case (LteE c v)
  show ?case
    by (simp only: builder_of.simps Lte_def)
       (rule weaken_appends [OF buildCmp_appends], simp add: placeholder_def)
next
  case (LikeE c v)
  show ?case
    by (simp only: builder_of.simps Like_def)
       (rule weaken_appends [OF buildLikeCmp_appends], simp add: placeholder_def)
next
  case (NotLikeE c v)
  show ?case
    by (simp only: builder_of.simps NotLike_def)
       (rule weaken_appends [OF buildLikeCmp_appends], simp add: placeholder_def)
qed


text \<open>
  Claim C8, as amended. For every Builder tree made of \<open>And\<close>, \<open>Or\<close>, \<open>Eq\<close>, \<open>Neq\<close>,
  \<open>Gt\<close>, \<open>Gte\<close>, \<open>Lt\<close>, \<open>Lte\<close>, \<open>Like\<close> and \<open>NotLike\<close>, when no quoted column name of
  the tree and neither boolean literal of the dialect contains the placeholder token,
  every successful render only appends (what the Buffer held stays at the front of both
  sequences), and the text it appends has as many placeholder tokens as it appends bound
  values; so a Buffer with as many placeholder tokens as bound values has as many after
  the render. This holds for every subtree, and a predicate appends its one bound value
  together with its one placeholder, so the values are in the order of the placeholders.
\<close>

theorem placeholders_match_values:
  assumes "\<forall>c\<in>set (columns_of t). occurrences placeholder (QuoteIdent d c) = 0"
    and "occurrences placeholder (EncodeBool d True) = 0"
    and "occurrences placeholder (EncodeBool d False) = 0"
    and "builder_of t d buf = (Return None, buf')"
  shows "prefix (buf_string buf) (buf_string buf') \<and>
         prefix (buf_value buf) (buf_value buf') \<and>
         occurrences placeholder (drop (length (buf_string buf)) (buf_string buf'))
           = length (drop (length (buf_value buf)) (buf_value buf')) \<and>
         (occurrences placeholder (buf_string buf) = length (buf_value buf) \<longrightarrow>
          occurrences placeholder (buf_string buf') = length (buf_value buf'))"
proof -
  from builder_of_appends [of t d] assms(1-3) obtain r s vs where
    run: "\<And>buf. builder_of t d buf =
        (r, buf\<lparr>buf_string := buf_string buf @ s, buf_value := buf_value buf @ vs\<rparr>)"
    and n: "occurrences placeholder s = length vs"
    by auto
  from run [of buf] assms(4) have "buf' = buf\<lparr>buf_string := buf_string buf @ s,
      buf_value := buf_value buf @ vs\<rparr>"
    by simp
  with n show ?thesis
    by (simp add: occurrences_append)
qed

text \<open>A render into a Buffer that already holds text, with two placeholders and two values.\<close>

theorem placeholders_match_values_witness:
  "builder_of (AndE [EqE ''a'' (VInt None KInt 1),
                     OrE [LikeE ''b'' (VString None ''x%''), NeqE ''c'' VNil],
                     EqE ''e'' (VSlice None (ElemType Int_kind None) [])])
       sample_dialect \<lparr>buf_string = ''WHERE '', buf_value = []\<rparr> =
     (Return None,
      \<lparr>buf_string = ''WHERE ([a] = ?) AND (([b] LIKE ?) OR ([c] IS NOT NULL)) AND (0)'',
       buf_value = [VInt None KInt 1, VString None ''x%'']\<rparr>) \<and>
   occurrences placeholder
       ''WHERE ([a] = ?) AND (([b] LIKE ?) OR ([c] IS NOT NULL)) AND (0)'' = 2 \<and>
   occurrences placeholder ''([a] = ?) AND (([b] LIKE ?) OR ([c] IS NOT NULL)) AND (0)'' = 2"
proof -
  let ?t = "AndE [EqE ''a'' (VInt None KInt 1),
                     OrE [LikeE ''b'' (VString None ''x%''), NeqE ''c'' VNil],
                     EqE ''e'' (VSlice None (ElemType Int_kind None) [])]"
  have 1: "\<forall>c\<in>set (columns_of ?t). occurrences placeholder (QuoteIdent sample_dialect c) = 0"
    by (simp add: sample_dialect_def placeholder_def)
  have 2: "occurrences placeholder (EncodeBool sample_dialect True) = 0"
    and 3: "occurrences placeholder (EncodeBool sample_dialect False) = 0"
    by (simp_all add: sample_dialect_def placeholder_def)
  have 4: "builder_of ?t sample_dialect \<lparr>buf_string = ''WHERE '', buf_value = []\<rparr> =
     (Return None,
      \<lparr>buf_string = ''WHERE ([a] = ?) AND (([b] LIKE ?) OR ([c] IS NOT NULL)) AND (0)'',
       buf_value = [VInt None KInt 1, VString None ''x%'']\<rparr>)"
    by (simp add: And_def Or_def buildCond_def Eq_def Neq_def Like_def buildLikeCmp_string
        buildCmp_eq ValueOf_def WriteString_def sample_dialect_def placeholder_def)
  from placeholders_match_values [OF 1 2 3 4] 4 show ?thesis
    by (simp add: placeholder_def)
qed

text \<open>
  Claim C8 as stated fails for a column name that holds the placeholder token: column
  names are quoted, not escaped. The render succeeds with two placeholder tokens in the
  text and one bound value, from a Buffer that had none of either.
\<close>

theorem placeholder_in_column_counterexample:
  "builder_of (EqE ''a] = ? OR [b'' (VInt None KInt 1)) sample_dialect empty_buffer =
     (Return None, \<lparr>buf_string = ''[a] = ? OR [b] = ?'', buf_value = [VInt None KInt 1]\<rparr>) \<and>
   occurrences placeholder (buf_string empty_buffer) = length (buf_value empty_buffer) \<and>
   occurrences placeholder ''[a] = ? OR [b] = ?'' = 2 \<and>
   occurrences placeholder
       (buf_string (snd (builder_of (EqE ''a] = ? OR [b'' (VInt None KInt 1))
          sample_dialect empty_buffer)))
     \<noteq> length
       (buf_value (snd (builder_of (EqE ''a] = ? OR [b'' (VInt None KInt 1))
          sample_dialect empty_buffer)))"
  by (simp add: Eq_def buildCmp_eq ValueOf_def sample_dialect_def placeholder_def empty_buffer_def)

text \<open>
  Claim C9. Rendering is a function of the tree and the dialect. In this embedding a
  render is the application of a function, so two renders of a tree into two empty
  Buffers are one term; what the theorem adds is that there is no other state: the
  render of a tree into any Buffer returns what the render into the empty Buffer returns
  and appends the text and the bound values of that render, whatever the Buffer held
  before. Two renders of a tree against a dialect therefore return the same result and
  append the same text and the same bound values.
\<close>

theorem render_deterministic:
  "builder_of t d buf =
     (fst (builder_of t d empty_buffer),
      buf\<lparr>buf_string := buf_string buf @ buf_string (snd (builder_of t d empty_buffer)),
          buf_value := buf_value buf @ buf_value (snd (builder_of t d empty_buffer))\<rparr>)"
proof -
  from builder_of_appends [of t d] obtain r s vs where
    run: "\<And>buf. builder_of t d buf =
        (r, buf\<lparr>buf_string := buf_string buf @ s, buf_value := buf_value buf @ vs\<rparr>)"
    by auto
  have "builder_of t d empty_buffer = (r, \<lparr>buf_string = s, buf_value = vs\<rparr>)"
    using run [of empty_buffer] by (simp add: empty_buffer_def)
  then show ?thesis
    by (simp add: run [of buf])
qed

end
